theory Spec2Isabelle
  imports Main
begin

section \<open>Strings\<close>

text \<open>
  The source is Python; its strings are sequences of code points. The model covers the
  ASCII range: a \<^typ>\<open>string\<close> is read as a sequence of ASCII characters, and the
  character classes below are the ones Python uses on that range. A character
  outside the listed classes (in particular any character above 127) is treated as an
  uncased symbol that is neither whitespace nor a digit.
\<close>

definition isspace :: "char \<Rightarrow> bool" where
  \<comment> \<open>the characters \<^verbatim>\<open>str.strip()\<close> removes: TAB LF VT FF CR, FS GS RS US, SPACE\<close>
  "isspace c \<longleftrightarrow>
     c \<in> set [CHR 0x09, CHR 0x0A, CHR 0x0B, CHR 0x0C, CHR 0x0D,
                CHR 0x1C, CHR 0x1D, CHR 0x1E, CHR 0x1F, CHR 0x20]"

definition isdigit :: "char \<Rightarrow> bool" where
  \<comment> \<open>the class \<^verbatim>\<open>\d\<close> of \<^verbatim>\<open>re\<close>\<close>
  "isdigit c \<longleftrightarrow> c \<in> set ''0123456789''"

definition uppercase :: string where
  "uppercase = ''ABCDEFGHIJKLMNOPQRSTUVWXYZ''"

definition lowercase :: string where
  "lowercase = ''abcdefghijklmnopqrstuvwxyz''"

definition iscased :: "char \<Rightarrow> bool" where
  "iscased c \<longleftrightarrow> c \<in> set uppercase \<or> c \<in> set lowercase"

definition lower_char :: "char \<Rightarrow> char" where
  "lower_char c = (case map_of (zip uppercase lowercase) c of Some l \<Rightarrow> l | None \<Rightarrow> c)"

definition upper_char :: "char \<Rightarrow> char" where
  "upper_char c = (case map_of (zip lowercase uppercase) c of Some u \<Rightarrow> u | None \<Rightarrow> c)"

definition str_strip :: "string \<Rightarrow> string" where
  \<comment> \<open>\<^verbatim>\<open>s.strip()\<close>\<close>
  "str_strip s = rev (dropWhile isspace (rev (dropWhile isspace s)))"

definition str_lower :: "string \<Rightarrow> string" where
  \<comment> \<open>\<^verbatim>\<open>s.lower()\<close>\<close>
  "str_lower s = map lower_char s"

text \<open>
  \<^verbatim>\<open>s.title()\<close> walks the string with one flag, whether the previous character was
  cased: a character after a cased one is lowercased, any other is uppercased.
\<close>

fun title_from :: "bool \<Rightarrow> string \<Rightarrow> string" where
  "title_from previous_is_cased [] = []"
| "title_from previous_is_cased (c # cs) =
     (if previous_is_cased then lower_char c else upper_char c) # title_from (iscased c) cs"

definition str_title :: "string \<Rightarrow> string" where
  "str_title s = title_from False s"

definition startswith :: "string \<Rightarrow> string \<Rightarrow> bool" where
  "startswith s p \<longleftrightarrow> take (length p) s = p"

section \<open>Cleaning helpers\<close>

definition strip_non_phone :: "string \<Rightarrow> string" where
  \<comment> \<open>\<^verbatim>\<open>re.sub(r"[^\d+]", "", raw)\<close>: every character that is neither a digit nor a plus sign is deleted\<close>
  "strip_non_phone raw = filter (\<lambda>c. isdigit c \<or> c = CHR ''+'') raw"

definition normalize_phone :: "string \<Rightarrow> string" where
  "normalize_phone raw =
     (if raw = [] \<or> str_lower (str_strip raw) \<in> set [''n/a'', ''na'', ''none'']
      then []
      else
        let digits = strip_non_phone raw in
        if digits \<noteq> [] \<and> \<not> startswith digits ''+'' then
          if length digits = 11 \<and> startswith digits ''1'' then ''+'' @ digits
          else if length digits = 10 then ''+1'' @ digits
          else digits
        else digits)"

definition country_mapping :: "(string \<times> string) list" where
  "country_mapping =
     [(''usa'', ''United States''),
      (''united states'', ''United States''),
      (''canada'', ''Canada''),
      (''uk'', ''United Kingdom''),
      (''united kingdom'', ''United Kingdom''),
      (''mexico'', ''Mexico'')]"

definition normalize_country :: "string option \<Rightarrow> string" where
  "normalize_country raw =
     (case raw of
        None \<Rightarrow> []
      | Some r \<Rightarrow>
          if r = [] then []
          else
            let s = str_strip r; key = str_lower s in
            (case map_of country_mapping key of
               Some label \<Rightarrow> label
             | None \<Rightarrow> str_title s))"

section \<open>HTML parsing helpers\<close>

text \<open>
  The markup parser is an external capability. A document is given by the tree it parses
  to: a tag with its name, its attribute dictionary and its children, or a piece of
  text. The queries below are the ones the source uses: \<^verbatim>\<open>find\<close> and
  \<^verbatim>\<open>find_all\<close> search all descendants in document order, \<^verbatim>\<open>get_text(strip=True)\<close>
  joins the stripped, non-empty text pieces below a tag.
\<close>

datatype node = Tag string "(string \<times> string) list" "node list" | NavigableString string

fun descendants :: "node \<Rightarrow> node list" where
  "descendants (Tag n a cs) = concat (map (\<lambda>c. c # descendants c) cs)"
| "descendants (NavigableString s) = []"

fun is_tag :: "string \<Rightarrow> node \<Rightarrow> bool" where
  "is_tag nm (Tag n a cs) \<longleftrightarrow> n = nm"
| "is_tag nm (NavigableString s) \<longleftrightarrow> False"

fun get_attr :: "node \<Rightarrow> string \<Rightarrow> string option" where
  "get_attr (Tag n a cs) k = map_of a k"
| "get_attr (NavigableString s) k = None"

fun text_of :: "node \<Rightarrow> string list" where
  "text_of (NavigableString s) = [s]"
| "text_of (Tag n a cs) = []"

definition find_all :: "string \<Rightarrow> node \<Rightarrow> node list" where
  "find_all nm t = filter (is_tag nm) (descendants t)"

definition find_tag :: "string \<Rightarrow> node \<Rightarrow> node option" where
  \<comment> \<open>\<^verbatim>\<open>t.find(nm)\<close>\<close>
  "find_tag nm t = (case find_all nm t of [] \<Rightarrow> None | x # _ \<Rightarrow> Some x)"

definition find_tag_id :: "string \<Rightarrow> string \<Rightarrow> node \<Rightarrow> node option" where
  \<comment> \<open>\<^verbatim>\<open>t.find(nm, id=ident)\<close>\<close>
  "find_tag_id nm ident t =
     (case filter (\<lambda>x. get_attr x ''id'' = Some ident) (find_all nm t) of
        [] \<Rightarrow> None
      | x # _ \<Rightarrow> Some x)"

definition get_text_strip :: "node \<Rightarrow> string" where
  \<comment> \<open>\<^verbatim>\<open>t.get_text(strip=True)\<close>\<close>
  "get_text_strip t =
     concat (filter (\<lambda>s. s \<noteq> []) (map str_strip (concat (map text_of (descendants t)))))"

text \<open>
  The children of a tag, the rows that are children of a table body and the cells that
  are children of a row. A tag is \<open>flat\<close> for a tag name when no tag of that name lies
  deeper than its children.
\<close>

fun children :: "node \<Rightarrow> node list" where
  "children (Tag n a cs) = cs"
| "children (NavigableString s) = []"

definition child_rows :: "node \<Rightarrow> node list" where
  "child_rows tbody = filter (is_tag ''tr'') (children tbody)"

definition child_cells :: "node \<Rightarrow> node list" where
  "child_cells tr = filter (is_tag ''td'') (children tr)"

definition flat :: "string \<Rightarrow> node \<Rightarrow> bool" where
  "flat nm t \<longleftrightarrow>
     list_all (\<lambda>c. list_all (\<lambda>x. \<not> is_tag nm x) (descendants c)) (children t)"

record company_row =
  CompanyID :: string
  CompanyName :: string
  Category :: string
  Email :: string
  Phone :: string
  Country :: string

definition cols_of :: "node \<Rightarrow> string list" where
  "cols_of tr = map get_text_strip (find_all ''td'' tr)"

definition row_of_cols :: "string list \<Rightarrow> company_row" where
  \<comment> \<open>the dictionary built from the six cells; only used on lists of length 6\<close>
  "row_of_cols cols =
     \<lparr>CompanyID = cols ! 0, CompanyName = cols ! 1, Category = cols ! 2,
      Email = cols ! 3, Phone = cols ! 4, Country = cols ! 5\<rparr>"

definition direct_row :: "node \<Rightarrow> company_row" where
  \<comment> \<open>the record of a row, read off the cells that are its children\<close>
  "direct_row tr = row_of_cols (map get_text_strip (child_cells tr))"

text \<open>The loop over the rows of the table body; \<open>rows\<close> is the list being appended to.\<close>

fun collect_rows :: "node list \<Rightarrow> company_row list \<Rightarrow> company_row list" where
  "collect_rows [] rows = rows"
| "collect_rows (tr # trs) rows =
     (let cols = cols_of tr in
      if length cols \<noteq> 6 then collect_rows trs rows
      else collect_rows trs (rows @ [row_of_cols cols]))"

definition parse_company_table :: "node \<Rightarrow> company_row list \<times> string option" where
  "parse_company_table soup =
     (case find_tag_id ''table'' ''company-table'' soup of
        None \<Rightarrow> ([], None)
      | Some table \<Rightarrow>
          (case find_tag ''tbody'' table of
             None \<Rightarrow> ([], None)
           | Some tbody \<Rightarrow>
               let rows = collect_rows (find_all ''tr'' tbody) [];
                   next_link = find_tag_id ''a'' ''next'' soup;
                   next_href = (case next_link of None \<Rightarrow> None | Some a \<Rightarrow> get_attr a ''href'')
               in (rows, next_href)))"

section \<open>Scraping the paginated site\<close>

text \<open>
  The file system is what the crawl sees of it. A resolved path that is not listed is
  missing: \<^verbatim>\<open>exists()\<close> answers no. A listed path holds a document, or exists and
  cannot be read (\<^verbatim>\<open>read_text\<close> raises), or cannot even be tested: \<^verbatim>\<open>exists()\<close>
  itself raises an operating-system error, as it does for an over-long name or a
  directory that may not be searched. \<open>resolve S cur href\<close> stands for
  \<^verbatim>\<open>(cur.parent / href).resolve()\<close> and \<open>site_page S name\<close> for
  \<^verbatim>\<open>(SITE_DIR / name).resolve()\<close>; resolving is taken to succeed. The set \<^verbatim>\<open>seen\<close> is kept as the list of paths
  in the order they were added; the source only tests membership.
\<close>

datatype error = OSError | TypeError

datatype entry = Document node | Unreadable | Inaccessible

type_synonym path = string

record site =
  documents :: "(path \<times> entry) list"
  resolve :: "path \<Rightarrow> string \<Rightarrow> path"
  site_page :: "string \<Rightarrow> path"

record crawl_state =
  seen :: "path list"
  all_rows :: "company_row list"

function scrape_loop :: "site \<Rightarrow> path option \<Rightarrow> crawl_state \<Rightarrow> error + crawl_state" where
  "scrape_loop S current st =
     (case current of
        None \<Rightarrow> Inr st
      | Some cur \<Rightarrow>
          (case map_of (documents S) cur of
             None \<Rightarrow> Inr st
           | Some e \<Rightarrow>
               if e = Inaccessible then Inl OSError
               else if cur \<in> set (seen st) then Inr st
               else
                 (case e of
                    Unreadable \<Rightarrow> Inl OSError
                  | Inaccessible \<Rightarrow> Inl OSError
                  | Document soup \<Rightarrow>
                      (case parse_company_table soup of
                         (rows, next_href) \<Rightarrow>
                           scrape_loop S
                             (case next_href of
                                None \<Rightarrow> None
                              | Some h \<Rightarrow> if h = [] then None else Some (resolve S cur h))
                             \<lparr>seen = seen st @ [cur], all_rows = all_rows st @ rows\<rparr>))))"
  by pat_completeness auto
termination
proof (relation "measure (\<lambda>(S, current, st). card (fst ` set (documents S) - set (seen st)))")
  show "wf (measure (\<lambda>(S, current, st). card (fst ` set (documents S) - set (seen st))))"
    by simp
next
  fix S :: site and current :: "path option" and st :: crawl_state and cur e soup
  fix pr :: "company_row list \<times> string option" and rows next_href
  assume "map_of (documents S) cur = Some e" and "cur \<notin> set (seen st)"
  then have "cur \<in> fst ` set (documents S) - set (seen st)"
    by (auto dest: map_of_SomeD intro: rev_image_eqI)
  moreover have "fst ` set (documents S) - set (seen st @ [cur])
      = (fst ` set (documents S) - set (seen st)) - {cur}"
    by auto
  moreover have "finite (fst ` set (documents S) - set (seen st))"
    by simp
  ultimately have "card (fst ` set (documents S) - set (seen st @ [cur]))
      < card (fst ` set (documents S) - set (seen st))"
    by (simp only: card_Diff1_less)
  then show "((S, (case next_href of None \<Rightarrow> None
                   | Some h \<Rightarrow> if h = [] then None else Some (resolve S cur h)),
               \<lparr>seen = seen st @ [cur], all_rows = all_rows st @ rows\<rparr>),
              (S, current, st))
      \<in> measure (\<lambda>(S, current, st). card (fst ` set (documents S) - set (seen st)))"
    by simp
qed

text \<open>
  What one visit contributes, read off the site: the records of the page at a path, the
  path its next link leads to, and whether a list of paths follows the next links.
\<close>

definition page_rows :: "site \<Rightarrow> path \<Rightarrow> company_row list" where
  "page_rows S p =
     (case map_of (documents S) p of
        Some (Document soup) \<Rightarrow> fst (parse_company_table soup)
      | Some Unreadable \<Rightarrow> []
      | Some Inaccessible \<Rightarrow> []
      | None \<Rightarrow> [])"

definition next_page :: "site \<Rightarrow> path \<Rightarrow> path option" where
  "next_page S p =
     (case map_of (documents S) p of
        Some (Document soup) \<Rightarrow>
          (case snd (parse_company_table soup) of
             None \<Rightarrow> None
           | Some h \<Rightarrow> if h = [] then None else Some (resolve S p h))
      | Some Unreadable \<Rightarrow> None
      | Some Inaccessible \<Rightarrow> None
      | None \<Rightarrow> None)"




section \<open>The frame\<close>

text \<open>
  A frame is the ordered list of its rows. A cell of the identifier column is a string
  (as scraped), a 64-bit integer or the missing value (after cleaning); the e-mail and
  phone columns hold a string or the missing value, the other columns strings.
\<close>

datatype cell = Str string | Int64 int | NA

record frame_row =
  CompanyID_cell :: cell
  CompanyName_cell :: string
  Category_cell :: string
  Email_cell :: "string option"
  Phone_cell :: "string option"
  Country_cell :: string

definition DataFrame :: "company_row list \<Rightarrow> frame_row list" where
  "DataFrame rows =
     map (\<lambda>r. \<lparr>CompanyID_cell = Str (CompanyID r), CompanyName_cell = CompanyName r,
                Category_cell = Category r, Email_cell = Some (Email r),
                Phone_cell = Some (Phone r), Country_cell = Country r\<rparr>) rows"


section \<open>Cleaning pipeline\<close>

text \<open>
  \<^verbatim>\<open>pd.to_numeric(column, errors="coerce")\<close> gives, for each value, an integer, a
  floating-point number that is not an integer, or NaN when the value is not numeric;
  \<^verbatim>\<open>.astype("Int64")\<close> then turns NaN into the missing value and raises
  \<^verbatim>\<open>TypeError\<close> when a number of the column is not an integer. Both belong to the
  table library, so how a string is read as a number is a parameter \<open>num\<close> of the
  pipeline, and the general theorems hold for every such reading.

  \<open>decimal_to_numeric\<close> is one reading, used where a concrete frame is evaluated: it
  reads plain decimal literals (an optional sign, digits, an optional point and digits)
  exactly. It does not cover other notations (exponents, infinities, surrounding blanks)
  and returns NaN for them; it is applied below to the literals \<open>1\<close>, \<open>2\<close>, \<open>7\<close> and
  \<open>1.5\<close> only. Integers are unbounded in the model; the 64-bit range is not modelled.
\<close>

datatype numeric = Whole int | Fraction | NaN

definition digit_value :: "char \<Rightarrow> int" where
  "digit_value c =
     (case map_of (zip ''0123456789'' [0, 1, 2, 3, 4, 5, 6, 7, 8, 9]) c of
        Some v \<Rightarrow> v
      | None \<Rightarrow> 0)"

definition int_of_digits :: "string \<Rightarrow> int" where
  "int_of_digits ds = foldl (\<lambda>n c. 10 * n + digit_value c) 0 ds"

definition decimal_to_numeric :: "string \<Rightarrow> numeric" where
  "decimal_to_numeric s =
     (let (negative, body) =
            (case s of
               [] \<Rightarrow> (False, s)
             | c # r \<Rightarrow>
                 if c = CHR ''-'' then (True, r)
                 else if c = CHR ''+'' then (False, r)
                 else (False, s));
          whole = takeWhile isdigit body;
          rest = dropWhile isdigit body;
          v = (if negative then - int_of_digits whole else int_of_digits whole)
      in if rest = [] then (if whole = [] then NaN else Whole v)
         else if hd rest = CHR ''.'' \<and> list_all isdigit (tl rest) \<and> \<not> (whole = [] \<and> tl rest = [])
         then (if list_all (\<lambda>c. c = CHR ''0'') (tl rest) then Whole v else Fraction)
         else NaN)"

definition to_numeric :: "(string \<Rightarrow> numeric) \<Rightarrow> cell list \<Rightarrow> numeric list" where
  "to_numeric num column =
     map (\<lambda>c. case c of Str s \<Rightarrow> num s | Int64 i \<Rightarrow> Whole i | NA \<Rightarrow> NaN) column"

definition astype_Int64 :: "numeric list \<Rightarrow> error + cell list" where
  "astype_Int64 column =
     (if Fraction \<in> set column then Inl TypeError
      else Inr (map (\<lambda>n. case n of Whole i \<Rightarrow> Int64 i | Fraction \<Rightarrow> NA | NaN \<Rightarrow> NA) column))"

definition astype_str :: "string option \<Rightarrow> string" where
  \<comment> \<open>\<^verbatim>\<open>.astype(str)\<close>: a string is itself. The missing value becomes its printed form, as
      the table library of the code's time prints it; a frame built from raw records holds no
      missing value, and the statements about raw records below do not depend on this case\<close>
  "astype_str v = (case v of Some s \<Rightarrow> s | None \<Rightarrow> ''<NA>'')"

definition replace_empty :: "string \<Rightarrow> string option" where
  \<comment> \<open>\<^verbatim>\<open>.replace({"": pd.NA})\<close>\<close>
  "replace_empty s = (if s = [] then None else Some s)"

definition clean_email :: "string option \<Rightarrow> string option" where
  "clean_email v = replace_empty (str_lower (str_strip (astype_str v)))"

definition clean_phone :: "string option \<Rightarrow> string option" where
  "clean_phone v = replace_empty (normalize_phone (astype_str v))"

definition clean_text :: "string \<Rightarrow> string" where
  \<comment> \<open>\<^verbatim>\<open>.astype(str).str.strip().str.title()\<close> on a column of strings\<close>
  "clean_text s = str_title (str_strip s)"

definition clean_fields :: "(string \<Rightarrow> numeric) \<Rightarrow> frame_row list \<Rightarrow> error + frame_row list" where
  "clean_fields num df =
     (case astype_Int64 (to_numeric num (map CompanyID_cell df)) of
        Inl e \<Rightarrow> Inl e
      | Inr ids \<Rightarrow>
          Inr (map (\<lambda>(i, r).
                 \<lparr>CompanyID_cell = i,
                  CompanyName_cell = clean_text (CompanyName_cell r),
                  Category_cell = clean_text (Category_cell r),
                  Email_cell = clean_email (Email_cell r),
                  Phone_cell = clean_phone (Phone_cell r),
                  Country_cell = normalize_country (Some (Country_cell r))\<rparr>)
               (zip ids df)))"

text \<open>
  \<^verbatim>\<open>drop_duplicates(subset=["CompanyID", "Email"], keep="first")\<close>: a row is dropped
  when an earlier row has the same pair of values; missing values count as equal to
  each other.
\<close>

definition key_of :: "frame_row \<Rightarrow> cell \<times> string option" where
  "key_of r = (CompanyID_cell r, Email_cell r)"

fun drop_duplicates_from :: "(cell \<times> string option) list \<Rightarrow> frame_row list \<Rightarrow> frame_row list" where
  "drop_duplicates_from earlier [] = []"
| "drop_duplicates_from earlier (r # rs) =
     (if key_of r \<in> set earlier then drop_duplicates_from earlier rs
      else r # drop_duplicates_from (earlier @ [key_of r]) rs)"

definition drop_duplicates :: "frame_row list \<Rightarrow> frame_row list" where
  "drop_duplicates df = drop_duplicates_from [] df"

definition clean_dataframe :: "(string \<Rightarrow> numeric) \<Rightarrow> frame_row list \<Rightarrow> error + frame_row list" where
  "clean_dataframe num df =
     (case clean_fields num df of
        Inl e \<Rightarrow> Inl e
      | Inr cleaned \<Rightarrow> Inr (drop_duplicates cleaned))"







section \<open>Example inputs\<close>

definition td_cell :: "string \<Rightarrow> node" where
  "td_cell s = Tag ''td'' [] [NavigableString s]"

definition table_row :: "string list \<Rightarrow> node" where
  "table_row cells = Tag ''tr'' [] (map td_cell cells)"

definition next_link :: "string \<Rightarrow> node" where
  "next_link href = Tag ''a'' [(''id'', ''next''), (''href'', href)] [NavigableString ''Next'']"

definition demo_page :: "node list \<Rightarrow> node list \<Rightarrow> node" where
  "demo_page trs links =
     Tag ''[document]'' []
       [Tag ''html'' []
          [Tag ''body'' []
             (Tag ''table'' [(''id'', ''company-table'')] [Tag ''tbody'' [] trs] # links)]]"

definition acme_cells :: "string list" where
  "acme_cells = [''1'', ''acme corp'', ''tech'', ''Info@Acme.com'', ''(555) 123-4567'', ''usa'']"

definition globex_cells :: "string list" where
  "globex_cells = [''2'', ''globex'', ''energy'', ''hq@globex.com'', ''12345'', ''bRaZiL'']"

definition acme_row :: company_row where
  "acme_row = \<lparr>CompanyID = ''1'', CompanyName = ''acme corp'', Category = ''tech'',
     Email = ''Info@Acme.com'', Phone = ''(555) 123-4567'', Country = ''usa''\<rparr>"

definition globex_row :: company_row where
  "globex_row = \<lparr>CompanyID = ''2'', CompanyName = ''globex'', Category = ''energy'',
     Email = ''hq@globex.com'', Phone = ''12345'', Country = ''bRaZiL''\<rparr>"

definition demo_site :: "(path \<times> entry) list \<Rightarrow> site" where
  "demo_site docs =
     \<lparr>documents = docs,
      resolve = (\<lambda>cur href. ''/site/'' @ href),
      site_page = (\<lambda>name. ''/site/'' @ name)\<rparr>"






definition no_tbody_page :: node where
  \<comment> \<open>the table has a row and no body section; the page has a next link\<close>
  "no_tbody_page =
     Tag ''[document]'' []
       [Tag ''table'' [(''id'', ''company-table'')] [table_row acme_cells],
        next_link ''page2.html'']"

definition no_tbody_site :: site where
  "no_tbody_site =
     demo_site
       [(''/site/page1.html'', Document no_tbody_page),
        (''/site/page2.html'', Document (demo_page [table_row globex_cells] []))]"

definition ragged_rows :: "node list" where
  \<comment> \<open>a row of 5 cells and a row of 7 cells between two rows of 6 cells\<close>
  "ragged_rows =
     [table_row acme_cells,
      table_row [''3'', ''short'', ''x'', ''y'', ''z''],
      table_row [''4'', ''long'', ''a'', ''b'', ''c'', ''d'', ''e''],
      table_row globex_cells]"

definition ragged_page :: node where
  "ragged_page = demo_page ragged_rows []"

definition duplicated_frame :: "frame_row list" where
  \<comment> \<open>the third record repeats the identifier and, up to case and blanks, the e-mail of the first\<close>
  "duplicated_frame =
     DataFrame
       [acme_row, globex_row,
        \<lparr>CompanyID = ''1'', CompanyName = ''ACME again'', Category = ''tech'',
         Email = '' info@acme.COM '', Phone = ''N/A'', Country = ''canada''\<rparr>]"

definition fractional_id_frame :: "frame_row list" where
  "fractional_id_frame =
     DataFrame
       [\<lparr>CompanyID = ''1.5'', CompanyName = ''acme corp'', Category = ''tech'',
         Email = ''info@acme.com'', Phone = ''12345'', Country = ''usa''\<rparr>]"

definition inner_table :: node where
  \<comment> \<open>a table with one row of six cells, to be put inside a cell\<close>
  "inner_table = Tag ''table'' [] [Tag ''tbody'' [] [table_row globex_cells]]"

definition nesting_row :: node where
  \<comment> \<open>a row with exactly six cells as children; the sixth cell holds \<open>inner_table\<close>\<close>
  "nesting_row =
     Tag ''tr'' []
       [td_cell ''1'', td_cell ''acme corp'', td_cell ''tech'', td_cell ''Info@Acme.com'',
        td_cell ''(555) 123-4567'', Tag ''td'' [] [inner_table]]"

definition nested_page :: node where
  "nested_page = demo_page [nesting_row] []"



section \<open>Auxiliary notions\<close>


definition first_occurrence :: "frame_row list \<Rightarrow> nat \<Rightarrow> bool" where
  \<comment> \<open>no record before position \<open>i\<close> has the key of the record at position \<open>i\<close>\<close>
  "first_occurrence t i \<longleftrightarrow> key_of (t ! i) \<notin> key_of ` set (take i t)"


section \<open>Facts about characters and strings\<close>








lemma phone_char_lower:
  "(isdigit (lower_char c) \<or> lower_char c = CHR ''+'') = (isdigit c \<or> c = CHR ''+'')"
  by (auto simp: isdigit_def lower_char_def uppercase_def lowercase_def)

lemma phone_char_not_space: "isdigit c \<or> c = CHR ''+'' \<Longrightarrow> \<not> isspace c"
  by (auto simp: isdigit_def isspace_def)

lemma filter_dropWhile_other:
  "(\<And>c. P c \<Longrightarrow> \<not> Q c) \<Longrightarrow> filter P (dropWhile Q s) = filter P s"
  by (induction s) auto

lemma strip_non_phone_strip: "strip_non_phone (str_strip s) = strip_non_phone s"
proof -
  let ?P = "\<lambda>c. isdigit c \<or> c = CHR ''+''"
  have d: "filter ?P (dropWhile isspace t) = filter ?P t" for t
    by (rule filter_dropWhile_other) (rule phone_char_not_space)
  have "filter ?P (str_strip s) = rev (filter ?P (dropWhile isspace (rev (dropWhile isspace s))))"
    by (simp add: str_strip_def rev_filter)
  also have "\<dots> = rev (filter ?P (rev (dropWhile isspace s)))"
    by (simp only: d)
  also have "\<dots> = filter ?P (dropWhile isspace s)"
    by (simp add: rev_filter)
  also have "\<dots> = filter ?P s"
    by (rule d)
  finally show ?thesis
    by (simp add: strip_non_phone_def)
qed

lemma strip_non_phone_lower: "strip_non_phone (str_lower s) = str_lower (strip_non_phone s)"
  by (induction s) (use phone_char_lower in \<open>auto simp: strip_non_phone_def str_lower_def\<close>)

lemma sentinel_no_digits:
  assumes "str_lower (str_strip raw) \<in> set [''n/a'', ''na'', ''none'']"
  shows "strip_non_phone raw = []"
proof -
  have "strip_non_phone (str_lower (str_strip raw)) = []"
    using assms by (auto simp: strip_non_phone_def isdigit_def)
  then have "str_lower (strip_non_phone (str_strip raw)) = []"
    by (simp add: strip_non_phone_lower)
  then have "strip_non_phone (str_strip raw) = []"
    by (simp add: str_lower_def)
  then show ?thesis
    by (simp add: strip_non_phone_strip)
qed

lemma digits_not_plus: "list_all isdigit d \<Longrightarrow> d \<noteq> [] \<Longrightarrow> \<not> startswith d ''+''"
  by (cases d) (auto simp: startswith_def isdigit_def)

lemma normalize_phone_bare:
  assumes "list_all isdigit (strip_non_phone raw)"
  shows "normalize_phone raw =
      (let d = strip_non_phone raw in
       if length d = 11 \<and> startswith d ''1'' then ''+'' @ d
       else if length d = 10 then ''+1'' @ d
       else d)"
proof (cases "raw = [] \<or> str_lower (str_strip raw) \<in> set [''n/a'', ''na'', ''none'']")
  case True
  then have "strip_non_phone raw = []"
    using sentinel_no_digits by (auto simp: strip_non_phone_def)
  with True show ?thesis
    by (simp add: normalize_phone_def)
next
  case False
  show ?thesis
  proof (cases "strip_non_phone raw = []")
    case True
    with False show ?thesis by (simp add: normalize_phone_def Let_def)
  next
    case ne: False
    with assms have "\<not> startswith (strip_non_phone raw) ''+''"
      by (rule digits_not_plus)
    with False ne show ?thesis
      by (simp add: normalize_phone_def Let_def)
  qed
qed

lemmas string_eval =
  normalize_phone_def strip_non_phone_def startswith_def str_strip_def str_lower_def
  str_title_def isspace_def isdigit_def iscased_def lower_char_def upper_char_def
  uppercase_def lowercase_def

section \<open>Phone numbers\<close>

text \<open>
  Claim C1. Whenever what is left of a raw phone string after deleting the other
  characters consists of digits only, \<open>normalize_phone\<close> returns it with \<open>+\<close> in front
  when it has exactly 11 digits and begins with 1, with \<open>+1\<close> in front when it has
  exactly 10 digits, and unchanged otherwise. The listed cases hold: the two US
  spellings give \<open>+15551234567\<close>, the British number keeps its plus sign, \<open>N/A\<close> gives
  the empty string, which the phone column stores as the missing value, and \<open>12345\<close>
  stays as it is.
\<close>

theorem normalize_phone_policy:
  "(list_all isdigit (strip_non_phone raw) \<longrightarrow>
      normalize_phone raw =
        (let d = strip_non_phone raw in
         if length d = 11 \<and> startswith d ''1'' then ''+'' @ d
         else if length d = 10 then ''+1'' @ d
         else d))
   \<and> normalize_phone ''(555) 123-4567'' = ''+15551234567''
   \<and> normalize_phone ''1-555-123-4567'' = ''+15551234567''
   \<and> normalize_phone ''+44 20 7946 0958'' = ''+442079460958''
   \<and> normalize_phone ''N/A'' = []
   \<and> clean_phone (Some ''N/A'') = None
   \<and> normalize_phone ''12345'' = ''12345''"
proof -
  have "normalize_phone ''(555) 123-4567'' = ''+15551234567''"
    by (simp add: string_eval)
  moreover have "normalize_phone ''1-555-123-4567'' = ''+15551234567''"
    by (simp add: string_eval)
  moreover have "normalize_phone ''+44 20 7946 0958'' = ''+442079460958''"
    by (simp add: string_eval)
  moreover have na: "normalize_phone ''N/A'' = []"
    by (simp add: string_eval)
  moreover have "clean_phone (Some ''N/A'') = None"
    by (simp add: clean_phone_def astype_str_def replace_empty_def na)
  moreover have "normalize_phone ''12345'' = ''12345''"
    by (simp add: string_eval)
  ultimately show ?thesis
    using normalize_phone_bare [of raw] by blast
qed

theorem normalize_phone_policy_witness:
  "list_all isdigit (strip_non_phone ''555.123.4567'')
   \<and> normalize_phone ''555.123.4567'' = ''+15551234567''"
  using normalize_phone_policy [of "''555.123.4567''"]
  by (simp add: strip_non_phone_def isdigit_def startswith_def)

text \<open>
  Claim C4. The deletion step keeps every plus sign, wherever it stands: for the raw
  string \<open>555+1234\<close> the intermediate string, and the result of \<open>normalize_phone\<close>, is
  \<open>555+1234\<close>, with a plus sign that is not in leading position.
\<close>

theorem strip_non_phone_inner_plus:
  "strip_non_phone ''555+1234'' = ''555+1234''
   \<and> normalize_phone ''555+1234'' = ''555+1234''
   \<and> normalize_phone ''1+555123456'' = ''+1+555123456''"
  by (simp add: string_eval)

section \<open>Countries\<close>

text \<open>
  Claim C7. \<open>normalize_country\<close> trims the raw string; when the lowercased trimmed
  string is one of the known variants the canonical label is returned, and otherwise the
  title-cased trimmed string is returned, whatever the string is. \<open>usa\<close> gives
  \<open>United States\<close> and \<open>bRaZiL\<close> gives \<open>Brazil\<close>.
\<close>

theorem normalize_country_canonical:
  "(str_lower (str_strip raw) \<in> set [''usa'', ''united states'']
      \<longrightarrow> normalize_country (Some raw) = ''United States'')
   \<and> (str_lower (str_strip raw) = ''canada'' \<longrightarrow> normalize_country (Some raw) = ''Canada'')
   \<and> (str_lower (str_strip raw) \<in> set [''uk'', ''united kingdom'']
      \<longrightarrow> normalize_country (Some raw) = ''United Kingdom'')
   \<and> (str_lower (str_strip raw) = ''mexico'' \<longrightarrow> normalize_country (Some raw) = ''Mexico'')
   \<and> (str_lower (str_strip raw) \<notin> fst ` set country_mapping
      \<longrightarrow> normalize_country (Some raw) = str_title (str_strip raw))
   \<and> normalize_country (Some ''usa'') = ''United States''
   \<and> normalize_country (Some ''bRaZiL'') = ''Brazil''"
proof -
  have hit: "normalize_country (Some raw) = label"
    if "map_of country_mapping (str_lower (str_strip raw)) = Some label" for label
  proof (cases "raw = []")
    case True
    with that show ?thesis
      by (simp add: str_strip_def str_lower_def country_mapping_def)
  next
    case False
    with that show ?thesis
      by (simp add: normalize_country_def Let_def)
  qed
  have miss: "normalize_country (Some raw) = str_title (str_strip raw)"
    if "str_lower (str_strip raw) \<notin> fst ` set country_mapping"
  proof (cases "raw = []")
    case True
    then show ?thesis
      by (simp add: normalize_country_def str_strip_def str_title_def)
  next
    case False
    from that have "map_of country_mapping (str_lower (str_strip raw)) = None"
      by (simp add: map_of_eq_None_iff)
    with False show ?thesis
      by (simp add: normalize_country_def Let_def)
  qed
  have "normalize_country (Some ''usa'') = ''United States''"
    by (simp add: normalize_country_def country_mapping_def string_eval)
  moreover have "normalize_country (Some ''bRaZiL'') = ''Brazil''"
    by (simp add: normalize_country_def country_mapping_def string_eval)
  ultimately show ?thesis
    using miss by (auto intro!: hit simp: country_mapping_def)
qed

theorem normalize_country_canonical_witness:
  "str_lower (str_strip '' UK '') \<in> set [''uk'', ''united kingdom'']
   \<and> normalize_country (Some '' UK '') = ''United Kingdom''
   \<and> str_lower (str_strip ''perU'') \<notin> fst ` set country_mapping
   \<and> normalize_country (Some ''perU'') = ''Peru''"
  using normalize_country_canonical [of "'' UK ''"] normalize_country_canonical [of "''perU''"]
  by (simp add: country_mapping_def string_eval)

section \<open>Parsing one page\<close>

lemma collect_rows_acc: "collect_rows trs rows = rows @ collect_rows trs []"
proof (induction trs arbitrary: rows)
  case Nil
  show ?case by simp
next
  case (Cons tr trs)
  show ?case
  proof (cases "length (cols_of tr) = 6")
    case True
    have "collect_rows (tr # trs) rows = collect_rows trs (rows @ [row_of_cols (cols_of tr)])"
      using True by (simp add: Let_def)
    also have "\<dots> = (rows @ [row_of_cols (cols_of tr)]) @ collect_rows trs []"
      by (rule Cons.IH)
    also have "\<dots> = rows @ collect_rows trs [row_of_cols (cols_of tr)]"
      using Cons.IH [of "[row_of_cols (cols_of tr)]"] by simp
    also have "\<dots> = rows @ collect_rows (tr # trs) []"
      using True by (simp add: Let_def)
    finally show ?thesis .
  next
    case False
    then show ?thesis
      using Cons.IH [of rows] by (simp add: Let_def)
  qed
qed

lemma collect_rows_filter:
  "collect_rows trs [] =
     map (row_of_cols \<circ> cols_of) (filter (\<lambda>tr. length (cols_of tr) = 6) trs)"
proof (induction trs)
  case Nil
  show ?case by simp
next
  case (Cons tr trs)
  show ?case
  proof (cases "length (cols_of tr) = 6")
    case True
    then have "collect_rows (tr # trs) [] = collect_rows trs [row_of_cols (cols_of tr)]"
      by (simp add: Let_def)
    also have "\<dots> = [row_of_cols (cols_of tr)] @ collect_rows trs []"
      by (rule collect_rows_acc)
    finally show ?thesis
      using True Cons.IH by simp
  next
    case False
    then show ?thesis
      using Cons.IH by (simp add: Let_def)
  qed
qed

lemma filter_descendants_flat:
  "list_all (\<lambda>c. list_all (\<lambda>x. \<not> P x) (descendants c)) cs
   \<Longrightarrow> filter P (concat (map (\<lambda>c. c # descendants c) cs)) = filter P cs"
proof (induction cs)
  case Nil
  show ?case by simp
next
  case (Cons c cs)
  from Cons.prems have "filter P (descendants c) = []"
    by (simp add: list_all_iff filter_empty_conv)
  moreover from Cons.prems have
    "filter P (concat (map (\<lambda>c. c # descendants c) cs)) = filter P cs"
    by (intro Cons.IH) simp
  ultimately show ?case
    by simp
qed

lemma find_all_flat: "flat nm t \<Longrightarrow> find_all nm t = filter (is_tag nm) (children t)"
  by (cases t) (simp_all add: find_all_def flat_def filter_descendants_flat)

lemma cols_of_flat: "flat ''td'' tr \<Longrightarrow> cols_of tr = map get_text_strip (child_cells tr)"
  by (simp add: cols_of_def child_cells_def find_all_flat)

lemma collect_rows_flat:
  assumes "flat ''tr'' tbody" and "list_all (flat ''td'') (child_rows tbody)"
  shows "collect_rows (find_all ''tr'' tbody) [] =
     map direct_row (filter (\<lambda>tr. length (child_cells tr) = 6) (child_rows tbody))"
proof -
  have rows: "find_all ''tr'' tbody = child_rows tbody"
    using assms(1) by (simp add: find_all_flat child_rows_def)
  have cols: "cols_of tr = map get_text_strip (child_cells tr)" if "tr \<in> set (child_rows tbody)" for tr
    using assms(2) that by (intro cols_of_flat) (simp add: list_all_iff)
  have "filter (\<lambda>tr. length (cols_of tr) = 6) (child_rows tbody)
      = filter (\<lambda>tr. length (child_cells tr) = 6) (child_rows tbody)"
    by (rule filter_cong) (simp_all add: cols)
  moreover have "map (row_of_cols \<circ> cols_of)
        (filter (\<lambda>tr. length (child_cells tr) = 6) (child_rows tbody))
      = map direct_row (filter (\<lambda>tr. length (child_cells tr) = 6) (child_rows tbody))"
    by (rule map_cong) (simp_all add: cols direct_row_def)
  ultimately show ?thesis
    by (simp add: rows collect_rows_filter)
qed

text \<open>
  Claim C9, amended. Take a document whose designated table has a body that is flat: no
  row lies deeper in the body than its children, and no cell lies deeper in a row of
  the body than the children of that row. Then the records of the page are exactly the
  rows that are children of the body and have six cells as children, in document order,
  each turned into a record by position. A row with another number of cells adds nothing,
  and the rows before and after it are extracted as if it were not there. The parser has
  no failing branch.
\<close>

theorem parse_company_table_flat_rows:
  "find_tag_id ''table'' ''company-table'' soup = Some table \<Longrightarrow>
   find_tag ''tbody'' table = Some tbody \<Longrightarrow>
   flat ''tr'' tbody \<Longrightarrow>
   list_all (flat ''td'') (child_rows tbody) \<Longrightarrow>
   fst (parse_company_table soup) =
     map direct_row (filter (\<lambda>r. length (child_cells r) = 6) (child_rows tbody))
   \<and> (child_rows tbody = before @ [tr] @ after \<longrightarrow>
        fst (parse_company_table soup) =
          map direct_row (filter (\<lambda>r. length (child_cells r) = 6) before)
          @ (if length (child_cells tr) = 6 then [direct_row tr] else [])
          @ map direct_row (filter (\<lambda>r. length (child_cells r) = 6) after))"
proof -
  assume t: "find_tag_id ''table'' ''company-table'' soup = Some table"
    and b: "find_tag ''tbody'' table = Some tbody"
    and f: "flat ''tr'' tbody" "list_all (flat ''td'') (child_rows tbody)"
  have "fst (parse_company_table soup) = collect_rows (find_all ''tr'' tbody) []"
    using t b by (simp add: parse_company_table_def Let_def)
  then have all: "fst (parse_company_table soup) =
     map direct_row (filter (\<lambda>r. length (child_cells r) = 6) (child_rows tbody))"
    using f by (simp add: collect_rows_flat)
  have "fst (parse_company_table soup) =
          map direct_row (filter (\<lambda>r. length (child_cells r) = 6) before)
          @ (if length (child_cells tr) = 6 then [direct_row tr] else [])
          @ map direct_row (filter (\<lambda>r. length (child_cells r) = 6) after)"
    if "child_rows tbody = before @ [tr] @ after"
    using that by (simp add: all)
  with all show ?thesis
    by blast
qed

theorem parse_company_table_flat_rows_witness:
  "find_tag_id ''table'' ''company-table'' ragged_page
     = Some (Tag ''table'' [(''id'', ''company-table'')] [Tag ''tbody'' [] ragged_rows])
   \<and> find_tag ''tbody'' (Tag ''table'' [(''id'', ''company-table'')] [Tag ''tbody'' [] ragged_rows])
     = Some (Tag ''tbody'' [] ragged_rows)
   \<and> flat ''tr'' (Tag ''tbody'' [] ragged_rows)
   \<and> list_all (flat ''td'') (child_rows (Tag ''tbody'' [] ragged_rows))
   \<and> child_rows (Tag ''tbody'' [] ragged_rows)
     = [table_row acme_cells] @ [table_row [''3'', ''short'', ''x'', ''y'', ''z'']]
       @ [table_row [''4'', ''long'', ''a'', ''b'', ''c'', ''d'', ''e''], table_row globex_cells]
   \<and> length (child_cells (table_row [''3'', ''short'', ''x'', ''y'', ''z''])) = 5
   \<and> fst (parse_company_table ragged_page) = [acme_row, globex_row]"
proof -
  let ?tbody = "Tag ''tbody'' [] ragged_rows"
  let ?table = "Tag ''table'' [(''id'', ''company-table'')] [?tbody]"
  have t: "find_tag_id ''table'' ''company-table'' ragged_page = Some ?table"
    by code_simp
  have b: "find_tag ''tbody'' ?table = Some ?tbody"
    by code_simp
  have f: "flat ''tr'' ?tbody"
    by code_simp
  have g: "list_all (flat ''td'') (child_rows ?tbody)"
    by code_simp
  have c: "child_rows ?tbody
     = [table_row acme_cells] @ [table_row [''3'', ''short'', ''x'', ''y'', ''z'']]
       @ [table_row [''4'', ''long'', ''a'', ''b'', ''c'', ''d'', ''e''], table_row globex_cells]"
    by code_simp
  have n: "length (child_cells (table_row [''3'', ''short'', ''x'', ''y'', ''z''])) = 5"
    by code_simp
  have r: "map direct_row (filter (\<lambda>r. length (child_cells r) = 6) (child_rows ?tbody))
     = [acme_row, globex_row]"
    by code_simp
  from parse_company_table_flat_rows [OF t b f g]
  have "fst (parse_company_table ragged_page) =
     map direct_row (filter (\<lambda>r. length (child_cells r) = 6) (child_rows ?tbody))"
    by (rule conjunct1)
  with t b f g c n r show ?thesis
    by simp
qed

text \<open>
  Claim C9 as stated fails on a nested table. The body of the designated table of
  \<open>nested_page\<close> has one row, with exactly six cells, the last of which holds a table of
  its own. The parser counts the cells of the inner table with those of the row, finds
  twelve and drops the row; and it extracts the row of the inner table, which is not a row
  of the designated table's body.
\<close>

theorem parse_company_table_nested_counterexample:
  "find_tag_id ''table'' ''company-table'' nested_page
     = Some (Tag ''table'' [(''id'', ''company-table'')] [Tag ''tbody'' [] [nesting_row]])
   \<and> find_tag ''tbody'' (Tag ''table'' [(''id'', ''company-table'')] [Tag ''tbody'' [] [nesting_row]])
     = Some (Tag ''tbody'' [] [nesting_row])
   \<and> child_rows (Tag ''tbody'' [] [nesting_row]) = [nesting_row]
   \<and> length (child_cells nesting_row) = 6
   \<and> length (cols_of nesting_row) = 12
   \<and> direct_row nesting_row \<notin> set (fst (parse_company_table nested_page))
   \<and> fst (parse_company_table nested_page) = [globex_row]"
  by code_simp

section \<open>The crawl\<close>

declare scrape_loop.simps [simp del]

lemma scrape_loop_None: "scrape_loop S None st = Inr st"
  by (subst scrape_loop.simps) simp



lemma scrape_loop_seen:
  "cur \<in> set (seen st) \<Longrightarrow> map_of (documents S) cur \<noteq> Some Inaccessible
   \<Longrightarrow> scrape_loop S (Some cur) st = Inr st"
  by (subst scrape_loop.simps) (simp split: option.split)


lemma scrape_loop_step:
  "map_of (documents S) cur = Some (Document soup) \<Longrightarrow> cur \<notin> set (seen st)
   \<Longrightarrow> scrape_loop S (Some cur) st =
       scrape_loop S (next_page S cur)
         \<lparr>seen = seen st @ [cur], all_rows = all_rows st @ page_rows S cur\<rparr>"
  by (subst scrape_loop.simps) (simp add: next_page_def page_rows_def split: prod.split)










text \<open>
  Claim C10. When the designated table exists and has no body section, the parser returns
  no records and no next reference, whatever links the document holds; a crawl that
  reaches such a page stops there and returns the records it had.
\<close>

theorem parse_company_table_no_tbody:
  "find_tag_id ''table'' ''company-table'' soup = Some table \<Longrightarrow>
   find_tag ''tbody'' table = None \<Longrightarrow>
   parse_company_table soup = ([], None)
   \<and> (map_of (documents S) cur = Some (Document soup) \<longrightarrow>
        scrape_loop S (Some cur) st =
          Inr (if cur \<in> set (seen st) then st else st\<lparr>seen := seen st @ [cur]\<rparr>))"
proof (intro conjI impI)
  assume t: "find_tag_id ''table'' ''company-table'' soup = Some table"
    and b: "find_tag ''tbody'' table = None"
  then show p: "parse_company_table soup = ([], None)"
    by (simp add: parse_company_table_def)
  assume doc: "map_of (documents S) cur = Some (Document soup)"
  show "scrape_loop S (Some cur) st =
          Inr (if cur \<in> set (seen st) then st else st\<lparr>seen := seen st @ [cur]\<rparr>)"
  proof (cases "cur \<in> set (seen st)")
    case True
    with doc show ?thesis
      by (simp add: scrape_loop_seen)
  next
    case False
    have "next_page S cur = None" "page_rows S cur = []"
      using doc p by (simp_all add: next_page_def page_rows_def)
    with False doc show ?thesis
      by (simp add: scrape_loop_step scrape_loop_None)
  qed
qed

theorem parse_company_table_no_tbody_witness:
  "find_tag_id ''table'' ''company-table'' no_tbody_page
     = Some (Tag ''table'' [(''id'', ''company-table'')] [table_row acme_cells])
   \<and> find_tag ''tbody'' (Tag ''table'' [(''id'', ''company-table'')] [table_row acme_cells]) = None
   \<and> find_tag_id ''a'' ''next'' no_tbody_page = Some (next_link ''page2.html'')
   \<and> get_attr (next_link ''page2.html'') ''href'' = Some ''page2.html''
   \<and> parse_company_table no_tbody_page = ([], None)
   \<and> scrape_loop no_tbody_site (Some ''/site/page1.html'') \<lparr>seen = [], all_rows = []\<rparr>
      = Inr \<lparr>seen = [''/site/page1.html''], all_rows = []\<rparr>"
proof -
  have t: "find_tag_id ''table'' ''company-table'' no_tbody_page
     = Some (Tag ''table'' [(''id'', ''company-table'')] [table_row acme_cells])"
    by code_simp
  have b: "find_tag ''tbody'' (Tag ''table'' [(''id'', ''company-table'')] [table_row acme_cells])
     = None"
    by code_simp
  have a: "find_tag_id ''a'' ''next'' no_tbody_page = Some (next_link ''page2.html'')"
    by code_simp
  have h: "get_attr (next_link ''page2.html'') ''href'' = Some ''page2.html''"
    by code_simp
  have d: "map_of (documents no_tbody_site) ''/site/page1.html'' = Some (Document no_tbody_page)"
    by code_simp
  from parse_company_table_no_tbody
    [OF t b, of no_tbody_site "''/site/page1.html''" "\<lparr>seen = [], all_rows = []\<rparr>"]
  show ?thesis
    using t b a h d by simp
qed

section \<open>Deduplication\<close>

lemma drop_duplicates_from_index:
  "drop_duplicates_from earlier rs =
     map ((!) rs)
       (filter (\<lambda>i. key_of (rs ! i) \<notin> set earlier \<union> key_of ` set (take i rs)) [0..<length rs])"
proof (induction rs arbitrary: earlier)
  case Nil
  show ?case by simp
next
  case (Cons r rs)
  have upt: "[0..<length (r # rs)] = 0 # map Suc [0..<length rs]"
    by (simp add: upt_conv_Cons map_Suc_upt del: upt_Suc)
  show ?case
  proof (cases "key_of r \<in> set earlier")
    case True
    then have e: "set earlier \<union> key_of ` set (take (Suc i) (r # rs))
        = set earlier \<union> key_of ` set (take i rs)" for i
      by auto
    show ?thesis
      using True Cons.IH [of earlier]
      by (simp only: upt drop_duplicates_from.simps if_True filter.simps filter_map o_def
            nth_Cons_Suc nth_Cons_0 e map_map take_0 list.set image_empty Un_empty_right)
         simp
  next
    case False
    have e: "set (earlier @ [key_of r]) \<union> key_of ` set (take i rs)
        = set earlier \<union> key_of ` set (take (Suc i) (r # rs))" for i
      by auto
    show ?thesis
      using False Cons.IH [of "earlier @ [key_of r]"]
      by (simp only: upt drop_duplicates_from.simps if_False filter.simps filter_map o_def
            nth_Cons_Suc nth_Cons_0 e map_map take_0 list.set image_empty Un_empty_right)
         simp
  qed
qed

lemma drop_duplicates_index:
  "drop_duplicates t = map ((!) t) (filter (first_occurrence t) [0..<length t])"
proof -
  have "(\<lambda>i. key_of (t ! i) \<notin> set [] \<union> key_of ` set (take i t)) = first_occurrence t"
    by (simp add: first_occurrence_def fun_eq_iff)
  then show ?thesis
    using drop_duplicates_from_index [of "[]" t] by (simp add: drop_duplicates_def)
qed


lemma drop_duplicates_from_distinct:
  "distinct (map key_of (drop_duplicates_from earlier rs))
   \<and> key_of ` set (drop_duplicates_from earlier rs) \<inter> set earlier = {}"
proof (induction rs arbitrary: earlier)
  case Nil
  show ?case by simp
next
  case (Cons r rs)
  show ?case
  proof (cases "key_of r \<in> set earlier")
    case True
    then show ?thesis
      using Cons.IH [of earlier] by simp
  next
    case False
    have ih: "distinct (map key_of (drop_duplicates_from (earlier @ [key_of r]) rs))"
      "key_of ` set (drop_duplicates_from (earlier @ [key_of r]) rs)
         \<inter> set (earlier @ [key_of r]) = {}"
      using Cons.IH [of "earlier @ [key_of r]"] by simp_all
    from ih(2) have "key_of r \<notin> key_of ` set (drop_duplicates_from (earlier @ [key_of r]) rs)"
      by auto
    moreover from ih(2) have
      "key_of ` set (drop_duplicates_from (earlier @ [key_of r]) rs) \<inter> set earlier = {}"
      by auto
    ultimately show ?thesis
      using False ih(1) by simp
  qed
qed


lemma distinct_key_once:
  "distinct (map f xs) \<Longrightarrow> length (filter (\<lambda>x. f x = k) xs) \<le> 1"
proof (induction xs)
  case Nil
  show ?case by simp
next
  case (Cons x xs)
  show ?case
  proof (cases "f x = k")
    case True
    with Cons.prems have "k \<notin> f ` set xs"
      by simp
    then have "filter (\<lambda>x. f x = k) xs = []"
      by (auto simp: filter_empty_conv)
    with True show ?thesis by simp
  next
    case False
    with Cons show ?thesis by simp
  qed
qed

lemma astype_Int64_length: "astype_Int64 column = Inr ids \<Longrightarrow> length ids = length column"
  by (auto simp: astype_Int64_def split: if_splits)

lemma clean_fields_length: "clean_fields num df = Inr t \<Longrightarrow> length t = length df"
  by (auto simp: clean_fields_def to_numeric_def split: sum.splits dest!: astype_Int64_length)

text \<open>
  Claim C2. Let \<open>t\<close> be the records after the field transforms, one per input record.
  The pipeline returns the records of \<open>t\<close> at the positions where no earlier record has
  the same pair of identifier and e-mail, in their order in \<open>t\<close>; missing values are
  compared like any other value. So no two returned records have the same pair, at most
  one has both values missing, and the number returned is the number of input records
  minus the number of records whose pair occurs earlier.
\<close>

theorem clean_dataframe_deduplicated:
  "clean_fields num df = Inr t \<Longrightarrow>
   clean_dataframe num df = Inr (drop_duplicates t)
   \<and> length t = length df
   \<and> drop_duplicates t = map ((!) t) (filter (first_occurrence t) [0..<length t])
   \<and> distinct (map key_of (drop_duplicates t))
   \<and> length (filter (\<lambda>r. key_of r = (NA, None)) (drop_duplicates t)) \<le> 1
   \<and> length (drop_duplicates t) =
       length df - length (filter (\<lambda>i. \<not> first_occurrence t i) [0..<length t])"
proof -
  assume t: "clean_fields num df = Inr t"
  have 1: "clean_dataframe num df = Inr (drop_duplicates t)"
    using t by (simp add: clean_dataframe_def)
  have 2: "length t = length df"
    using t by (rule clean_fields_length)
  have 3: "drop_duplicates t = map ((!) t) (filter (first_occurrence t) [0..<length t])"
    by (rule drop_duplicates_index)
  have 4: "distinct (map key_of (drop_duplicates t))"
    using drop_duplicates_from_distinct [of "[]" t] by (simp add: drop_duplicates_def)
  have 5: "length (filter (\<lambda>r. key_of r = (NA, None)) (drop_duplicates t)) \<le> 1"
    using 4 by (rule distinct_key_once)
  have "length (filter (first_occurrence t) [0..<length t])
        + length (filter (\<lambda>i. \<not> first_occurrence t i) [0..<length t]) = length t"
    using sum_length_filter_compl [of "first_occurrence t" "[0..<length t]"] by simp
  then have 6: "length (drop_duplicates t) =
       length df - length (filter (\<lambda>i. \<not> first_occurrence t i) [0..<length t])"
    using 2 by (simp add: 3)
  from 1 2 3 4 5 6 show ?thesis
    by (intro conjI)
qed

theorem clean_dataframe_deduplicated_witness:
  "clean_fields decimal_to_numeric duplicated_frame
     = Inr [\<lparr>CompanyID_cell = Int64 1, CompanyName_cell = ''Acme Corp'', Category_cell = ''Tech'',
             Email_cell = Some ''info@acme.com'', Phone_cell = Some ''+15551234567'',
             Country_cell = ''United States''\<rparr>,
            \<lparr>CompanyID_cell = Int64 2, CompanyName_cell = ''Globex'', Category_cell = ''Energy'',
             Email_cell = Some ''hq@globex.com'', Phone_cell = Some ''12345'',
             Country_cell = ''Brazil''\<rparr>,
            \<lparr>CompanyID_cell = Int64 1, CompanyName_cell = ''Acme Again'', Category_cell = ''Tech'',
             Email_cell = Some ''info@acme.com'', Phone_cell = None,
             Country_cell = ''Canada''\<rparr>]
   \<and> clean_dataframe decimal_to_numeric duplicated_frame
     = Inr [\<lparr>CompanyID_cell = Int64 1, CompanyName_cell = ''Acme Corp'', Category_cell = ''Tech'',
             Email_cell = Some ''info@acme.com'', Phone_cell = Some ''+15551234567'',
             Country_cell = ''United States''\<rparr>,
            \<lparr>CompanyID_cell = Int64 2, CompanyName_cell = ''Globex'', Category_cell = ''Energy'',
             Email_cell = Some ''hq@globex.com'', Phone_cell = Some ''12345'',
             Country_cell = ''Brazil''\<rparr>]"
proof -
  let ?t = "[\<lparr>CompanyID_cell = Int64 1, CompanyName_cell = ''Acme Corp'', Category_cell = ''Tech'',
             Email_cell = Some ''info@acme.com'', Phone_cell = Some ''+15551234567'',
             Country_cell = ''United States''\<rparr>,
            \<lparr>CompanyID_cell = Int64 2, CompanyName_cell = ''Globex'', Category_cell = ''Energy'',
             Email_cell = Some ''hq@globex.com'', Phone_cell = Some ''12345'',
             Country_cell = ''Brazil''\<rparr>,
            \<lparr>CompanyID_cell = Int64 1, CompanyName_cell = ''Acme Again'', Category_cell = ''Tech'',
             Email_cell = Some ''info@acme.com'', Phone_cell = None,
             Country_cell = ''Canada''\<rparr>]"
  have t: "clean_fields decimal_to_numeric duplicated_frame = Inr ?t"
    by code_simp
  have d: "drop_duplicates ?t = [?t ! 0, ?t ! 1]"
    by code_simp
  from clean_dataframe_deduplicated [OF t]
  have "clean_dataframe decimal_to_numeric duplicated_frame = Inr (drop_duplicates ?t)"
    by (rule conjunct1)
  with t d show ?thesis
    by simp
qed

text \<open>
  Claim C5. For the identifier \<open>1.5\<close> the conversion of the identifier column raises: the
  string is numeric, so it is not coerced to the missing value, and it is not an integer,
  so the cast to the integer type fails. The whole pipeline fails with it.
\<close>

theorem clean_dataframe_fractional_id:
  "decimal_to_numeric ''1.5'' = Fraction
   \<and> astype_Int64 (to_numeric decimal_to_numeric [Str ''1.5'']) = Inl TypeError
   \<and> clean_dataframe decimal_to_numeric fractional_id_frame = Inl TypeError"
  by code_simp

section \<open>Running the pipeline on its own output\<close>



































end
